theory Spec2Isabelle
  imports Main "HOL-Library.AList"
begin

section \<open>Values decoded from a request body\<close>

text \<open>
  The server (\<^verbatim>\<open>src/supabase_server.py\<close>) keeps one module-level dictionary
  \<^verbatim>\<open>tables\<close> and answers \<^verbatim>\<open>POST /mcp/{function_name}\<close> in the single function
  \<^verbatim>\<open>handle_mcp_request\<close>. Everything it handles is a value produced by
  \<^verbatim>\<open>json.loads\<close>: \<^verbatim>\<open>None\<close>, \<^verbatim>\<open>bool\<close>, \<^verbatim>\<open>int\<close>, \<^verbatim>\<open>str\<close>, \<^verbatim>\<open>list\<close> and
  \<^verbatim>\<open>dict\<close> with \<^verbatim>\<open>str\<close> keys. A dictionary is an association list in insertion
  order; the dictionaries Python builds have pairwise distinct keys, and every function
  below reads the first entry of a key (\<open>map_of\<close>) and writes it in place
  (\<open>AList.update\<close>, which appends a new key at the end, as \<^verbatim>\<open>d[k] = v\<close> does).
  Numbers are Python's unbounded integers; numbers written with a fraction or an
  exponent (Python \<^verbatim>\<open>float\<close>) are not part of this development.
\<close>

datatype json =
    JNull
  | JBool bool
  | JInt int
  | JStr string
  | JArr "json list"
  | JObj "(string \<times> json) list"

type_synonym dict = "(string \<times> json) list"

text \<open>
  Truth value testing, as in \<^verbatim>\<open>if not table_name\<close>: \<^verbatim>\<open>None\<close>, \<^verbatim>\<open>False\<close>, zero and
  every empty string, list and dictionary are false.
\<close>

fun truthy :: "json \<Rightarrow> bool" where
  "truthy JNull = False"
| "truthy (JBool b) = b"
| "truthy (JInt n) = (n \<noteq> 0)"
| "truthy (JStr s) = (s \<noteq> [])"
| "truthy (JArr xs) = (xs \<noteq> [])"
| "truthy (JObj kvs) = (kvs \<noteq> [])"

text \<open>
  Python's \<^verbatim>\<open>==\<close> on these values. \<^verbatim>\<open>bool\<close> is a subclass of \<^verbatim>\<open>int\<close>, so
  \<^verbatim>\<open>True == 1\<close> and \<^verbatim>\<open>False == 0\<close>. Lists are equal when they have the same length and
  equal elements in order; dictionaries are equal when they have the same number of
  keys and every key of the left one is in the right one with an equal value. Values of
  different kinds are otherwise unequal. \<^verbatim>\<open>a != b\<close> is the negation.
\<close>

fun py_eq :: "json \<Rightarrow> json \<Rightarrow> bool" where
  "py_eq JNull JNull = True"
| "py_eq (JBool a) (JBool b) = (a = b)"
| "py_eq (JBool a) (JInt n) = ((if a then 1 else 0) = n)"
| "py_eq (JInt m) (JBool b) = (m = (if b then 1 else 0))"
| "py_eq (JInt m) (JInt n) = (m = n)"
| "py_eq (JStr s) (JStr t) = (s = t)"
| "py_eq (JArr xs) (JArr ys) = list_all2 py_eq xs ys"
| "py_eq (JObj a) (JObj b) =
     (length a = length b \<and>
      list_all (\<lambda>(k, v). case map_of b k of None \<Rightarrow> False | Some w \<Rightarrow> py_eq v w) a)"
| "py_eq _ _ = False"


text \<open>
  Dictionary keys must be hashable: \<^verbatim>\<open>x in tables\<close> raises \<^verbatim>\<open>TypeError\<close> when
  \<^verbatim>\<open>x\<close> is a list or a dictionary.
\<close>

fun hashable :: "json \<Rightarrow> bool" where
  "hashable (JArr xs) = False"
| "hashable (JObj kvs) = False"
| "hashable _ = True"

section \<open>Exceptions and responses\<close>

text \<open>
  The exceptions the handler can meet. \<open>OtherException\<close> stands for whatever else
  \<^verbatim>\<open>json.loads\<close> may raise on a body (it is a parameter of the model, see
  \<open>handle_mcp_request\<close>).
\<close>

datatype exn =
    JSONDecodeError
  | AttributeError
  | TypeError
  | KeyError
  | OtherException string

text \<open>
  An error message is kept as the parts of the f-string that builds it: literal text
  and formatted fields. \<open>Fmt x\<close> is the field \<^verbatim>\<open>{x}\<close>, that is \<^verbatim>\<open>str(x)\<close>, which
  for a \<^verbatim>\<open>str\<close> is the string itself. \<open>ExcStr e\<close> is \<^verbatim>\<open>str(e)\<close> of a caught
  exception.
\<close>

datatype part = Lit string | Fmt json | ExcStr exn

text \<open>
  The five shapes of the returned dictionary:
  \<^verbatim>\<open>{"data": results}\<close>, \<^verbatim>\<open>{"ids": inserted_ids, "success": True}\<close>,
  \<^verbatim>\<open>{"success": True}\<close>, \<^verbatim>\<open>{"tables": [...]}\<close> and \<^verbatim>\<open>{"error": message}\<close>.
\<close>

datatype response =
    RData "dict list"
  | RIds "json list"
  | RSuccess
  | RTables "json list"
  | RError "part list"

section \<open>The store\<close>

text \<open>
  \<^verbatim>\<open>tables\<close> maps a table name to the list of its records. It is an association list
  in insertion order, looked up with Python's key equality (so the keys \<^verbatim>\<open>True\<close> and
  \<^verbatim>\<open>1\<close> name the same table). \<open>uuid_draws\<close> counts the calls of \<^verbatim>\<open>uuid.uuid4()\<close>
  made so far: the \<open>n\<close>-th call returns the \<open>n\<close>-th value of the random source, which
  is a parameter \<open>uuid4 :: nat \<Rightarrow> string\<close> of the functions below (the text
  \<^verbatim>\<open>str(uuid.uuid4())\<close> of each draw).
\<close>

record store =
  tables :: "(json \<times> dict list) list"
  uuid_draws :: nat

definition tables_init :: "(json \<times> dict list) list" where
  "tables_init =
     [(JStr ''users'',
        [[(''id'', JStr ''1''), (''name'', JStr ''John Doe''), (''email'', JStr ''john@example.com'')],
         [(''id'', JStr ''2''), (''name'', JStr ''Jane Smith''), (''email'', JStr ''jane@example.com'')]]),
      (JStr ''posts'',
        [[(''id'', JStr ''1''), (''title'', JStr ''First Post''), (''content'', JStr ''Hello World''),
          (''user_id'', JStr ''1'')],
         [(''id'', JStr ''2''), (''title'', JStr ''Second Post''), (''content'', JStr ''Another post''),
          (''user_id'', JStr ''2'')]]),
      (JStr ''comments'',
        [[(''id'', JStr ''1''), (''post_id'', JStr ''1''), (''user_id'', JStr ''2''),
          (''content'', JStr ''Great post!'')],
         [(''id'', JStr ''2''), (''post_id'', JStr ''1''), (''user_id'', JStr ''1''),
          (''content'', JStr ''Thanks!'')]])]"

definition store_init :: store where
  "store_init = \<lparr>tables = tables_init, uuid_draws = 0\<rparr>"

text \<open>\<^verbatim>\<open>tables[key]\<close>: the value of the first entry whose key equals \<open>key\<close>.\<close>

fun tbl_lookup :: "(json \<times> 'a) list \<Rightarrow> json \<Rightarrow> 'a option" where
  "tbl_lookup [] key = None"
| "tbl_lookup ((k, v) # rest) key = (if py_eq k key then Some v else tbl_lookup rest key)"

text \<open>
  \<^verbatim>\<open>tables[key] = v\<close>: an existing entry keeps its place and its key object, a new key
  is added at the end.
\<close>

fun tbl_store :: "(json \<times> 'a) list \<Rightarrow> json \<Rightarrow> 'a \<Rightarrow> (json \<times> 'a) list" where
  "tbl_store [] key v = [(key, v)]"
| "tbl_store ((k, old) # rest) key v =
     (if py_eq k key then (k, v) # rest else (k, old) # tbl_store rest key v)"

text \<open>\<^verbatim>\<open>key in tables\<close>, which hashes the key first.\<close>

definition py_contains :: "(json \<times> 'a) list \<Rightarrow> json \<Rightarrow> exn + bool" where
  "py_contains tbls key =
     (if hashable key then Inr (tbl_lookup tbls key \<noteq> None) else Inl TypeError)"

section \<open>Methods of the decoded values\<close>

text \<open>
  \<^verbatim>\<open>x.get(key, default)\<close>: only a dictionary has the method; on any other value the
  attribute lookup raises \<^verbatim>\<open>AttributeError\<close>.
\<close>

fun py_get :: "json \<Rightarrow> string \<Rightarrow> json \<Rightarrow> exn + json" where
  "py_get (JObj kvs) key dflt = Inr (case map_of kvs key of None \<Rightarrow> dflt | Some v \<Rightarrow> v)"
| "py_get _ key dflt = Inl AttributeError"

text \<open>\<^verbatim>\<open>x.items()\<close>, likewise.\<close>

fun py_items :: "json \<Rightarrow> exn + (string \<times> json) list" where
  "py_items (JObj kvs) = Inr kvs"
| "py_items _ = Inl AttributeError"

text \<open>
  \<^verbatim>\<open>for record in x\<close>: a list yields its elements, a string its characters, a
  dictionary its keys; \<^verbatim>\<open>None\<close>, booleans and integers are not iterable.
\<close>

fun py_iter :: "json \<Rightarrow> exn + json list" where
  "py_iter (JArr xs) = Inr xs"
| "py_iter (JStr s) = Inr (map (\<lambda>c. JStr [c]) s)"
| "py_iter (JObj kvs) = Inr (map (\<lambda>(k, v). JStr k) kvs)"
| "py_iter _ = Inl TypeError"

text \<open>\<^verbatim>\<open>record.get("id")\<close> of a stored record (always a dictionary).\<close>

definition get_id :: "dict \<Rightarrow> json" where
  "get_id rcd = (case map_of rcd ''id'' of None \<Rightarrow> JNull | Some v \<Rightarrow> v)"


section \<open>The five functions\<close>

subsection \<open>query\<close>

text \<open>
  The inner loop of \<^verbatim>\<open>query\<close> over \<^verbatim>\<open>filters.items()\<close>: \<^verbatim>\<open>match\<close> becomes false, and the
  loop stops, at the first pair whose key is not in the item or whose value differs.
\<close>

fun item_matches :: "dict \<Rightarrow> (string \<times> json) list \<Rightarrow> bool" where
  "item_matches item [] = True"
| "item_matches item ((key, val) # rest) =
     (case map_of item key of
        None \<Rightarrow> False
      | Some x \<Rightarrow> if \<not> py_eq x val then False else item_matches item rest)"

text \<open>
  The outer loop over the table. \<^verbatim>\<open>filters.items()\<close> is evaluated once per item, so a
  \<^verbatim>\<open>filters\<close> that is not a dictionary raises only when the table has a record.
\<close>

fun filter_loop :: "json \<Rightarrow> dict list \<Rightarrow> dict list \<Rightarrow> exn + dict list" where
  "filter_loop filters [] filtered_results = Inr filtered_results"
| "filter_loop filters (item # rest) filtered_results =
     (case py_items filters of
        Inl e \<Rightarrow> Inl e
      | Inr kvs \<Rightarrow>
          filter_loop filters rest
            (if item_matches item kvs then filtered_results @ [item] else filtered_results))"

definition mcp_query :: "store \<Rightarrow> json \<Rightarrow> exn + response" where
  "mcp_query st parameters =
     (case py_get parameters ''table'' JNull of
        Inl e \<Rightarrow> Inl e
      | Inr table_name \<Rightarrow>
     (case py_get parameters ''filters'' (JObj []) of
        Inl e \<Rightarrow> Inl e
      | Inr filters \<Rightarrow>
     if \<not> truthy table_name then Inr (RError [Lit ''table parameter is required''])
     else
     (case py_contains (tables st) table_name of
        Inl e \<Rightarrow> Inl e
      | Inr False \<Rightarrow> Inr (RError [Lit ''Table '', Fmt table_name, Lit '' not found''])
      | Inr True \<Rightarrow>
     (case tbl_lookup (tables st) table_name of
        None \<Rightarrow> Inl KeyError
      | Some results \<Rightarrow>
     if truthy filters then
       (case filter_loop filters results [] of
          Inl e \<Rightarrow> Inl e
        | Inr filtered_results \<Rightarrow> Inr (RData filtered_results))
     else Inr (RData results)))))"

subsection \<open>insert\<close>

text \<open>
  The loop over \<^verbatim>\<open>records\<close>. \<^verbatim>\<open>record.get("id", str(uuid.uuid4()))\<close> looks the method
  up first (\<^verbatim>\<open>AttributeError\<close> for anything but a dictionary), then evaluates its
  arguments, so a value is drawn for every dictionary, used or not. An exception leaves
  the records appended before it in the table.
\<close>

fun insert_loop ::
  "(nat \<Rightarrow> string) \<Rightarrow> json \<Rightarrow> json list \<Rightarrow> json list \<Rightarrow> store \<Rightarrow> (exn + json list) \<times> store" where
  "insert_loop uuid4 table_name [] inserted_ids st = (Inr inserted_ids, st)"
| "insert_loop uuid4 table_name (rcd # rest) inserted_ids st =
     (case rcd of
        JObj kvs \<Rightarrow>
          (let drawn = JStr (uuid4 (uuid_draws st));
               st1 = st\<lparr>uuid_draws := Suc (uuid_draws st)\<rparr>;
               record_id = (case map_of kvs ''id'' of None \<Rightarrow> drawn | Some v \<Rightarrow> v);
               rcd1 = AList.update ''id'' record_id kvs
           in case tbl_lookup (tables st1) table_name of
                None \<Rightarrow> (Inl KeyError, st1)
              | Some recs \<Rightarrow>
                  insert_loop uuid4 table_name rest (inserted_ids @ [record_id])
                    (st1\<lparr>tables := tbl_store (tables st1) table_name (recs @ [rcd1])\<rparr>))
      | _ \<Rightarrow> (Inl AttributeError, st))"

definition mcp_insert :: "(nat \<Rightarrow> string) \<Rightarrow> store \<Rightarrow> json \<Rightarrow> (exn + response) \<times> store" where
  "mcp_insert uuid4 st parameters =
     (case py_get parameters ''table'' JNull of
        Inl e \<Rightarrow> (Inl e, st)
      | Inr table_name \<Rightarrow>
     (case py_get parameters ''records'' (JArr []) of
        Inl e \<Rightarrow> (Inl e, st)
      | Inr records \<Rightarrow>
     if \<not> truthy table_name then (Inr (RError [Lit ''table parameter is required'']), st)
     else if \<not> truthy records then (Inr (RError [Lit ''records parameter is required'']), st)
     else
     (case py_contains (tables st) table_name of
        Inl e \<Rightarrow> (Inl e, st)
      | Inr present \<Rightarrow>
     (let st1 = (if \<not> present then st\<lparr>tables := tbl_store (tables st) table_name []\<rparr> else st)
      in case py_iter records of
           Inl e \<Rightarrow> (Inl e, st1)
         | Inr rs \<Rightarrow>
        (case insert_loop uuid4 table_name rs [] st1 of
           (Inl e, st2) \<Rightarrow> (Inl e, st2)
         | (Inr inserted_ids, st2) \<Rightarrow> (Inr (RIds inserted_ids), st2))))))"

subsection \<open>update and delete\<close>

text \<open>
  Both scan with \<^verbatim>\<open>for i, record in enumerate(tables[table_name])\<close> and leave the loop
  at the first record with \<^verbatim>\<open>record.get("id") == record_id\<close>. \<open>find_record\<close> is that
  scan: the index at which the loop body runs, or \<open>None\<close> when the \<^verbatim>\<open>else\<close> branch of
  the loop is taken.
\<close>

fun find_record :: "json \<Rightarrow> dict list \<Rightarrow> nat \<Rightarrow> nat option" where
  "find_record record_id [] i = None"
| "find_record record_id (rcd # rest) i =
     (if py_eq (get_id rcd) record_id then Some i else find_record record_id rest (Suc i))"

text \<open>\<^verbatim>\<open>for key, value in updates.items(): tables[table_name][i][key] = value\<close>\<close>

fun apply_updates :: "(string \<times> json) list \<Rightarrow> dict \<Rightarrow> dict" where
  "apply_updates [] rcd = rcd"
| "apply_updates ((key, val) # rest) rcd = apply_updates rest (AList.update key val rcd)"

definition mcp_update :: "store \<Rightarrow> json \<Rightarrow> (exn + response) \<times> store" where
  "mcp_update st parameters =
     (case py_get parameters ''table'' JNull of
        Inl e \<Rightarrow> (Inl e, st)
      | Inr table_name \<Rightarrow>
     (case py_get parameters ''id'' JNull of
        Inl e \<Rightarrow> (Inl e, st)
      | Inr record_id \<Rightarrow>
     (case py_get parameters ''updates'' (JObj []) of
        Inl e \<Rightarrow> (Inl e, st)
      | Inr updates \<Rightarrow>
     if \<not> truthy table_name then (Inr (RError [Lit ''table parameter is required'']), st)
     else if \<not> truthy record_id then (Inr (RError [Lit ''id parameter is required'']), st)
     else if \<not> truthy updates then (Inr (RError [Lit ''updates parameter is required'']), st)
     else
     (case py_contains (tables st) table_name of
        Inl e \<Rightarrow> (Inl e, st)
      | Inr False \<Rightarrow> (Inr (RError [Lit ''Table '', Fmt table_name, Lit '' not found'']), st)
      | Inr True \<Rightarrow>
     (case tbl_lookup (tables st) table_name of
        None \<Rightarrow> (Inl KeyError, st)
      | Some recs \<Rightarrow>
     (case find_record record_id recs 0 of
        None \<Rightarrow>
          (Inr (RError [Lit ''Record with id '', Fmt record_id,
                        Lit '' not found in table '', Fmt table_name]), st)
      | Some i \<Rightarrow>
     (case py_items updates of
        Inl e \<Rightarrow> (Inl e, st)
      | Inr kvs \<Rightarrow>
          (Inr RSuccess,
           st\<lparr>tables := tbl_store (tables st) table_name
                           (recs[i := apply_updates kvs (recs ! i)])\<rparr>))))))))"

definition mcp_delete :: "store \<Rightarrow> json \<Rightarrow> (exn + response) \<times> store" where
  "mcp_delete st parameters =
     (case py_get parameters ''table'' JNull of
        Inl e \<Rightarrow> (Inl e, st)
      | Inr table_name \<Rightarrow>
     (case py_get parameters ''id'' JNull of
        Inl e \<Rightarrow> (Inl e, st)
      | Inr record_id \<Rightarrow>
     if \<not> truthy table_name then (Inr (RError [Lit ''table parameter is required'']), st)
     else if \<not> truthy record_id then (Inr (RError [Lit ''id parameter is required'']), st)
     else
     (case py_contains (tables st) table_name of
        Inl e \<Rightarrow> (Inl e, st)
      | Inr False \<Rightarrow> (Inr (RError [Lit ''Table '', Fmt table_name, Lit '' not found'']), st)
      | Inr True \<Rightarrow>
     (case tbl_lookup (tables st) table_name of
        None \<Rightarrow> (Inl KeyError, st)
      | Some recs \<Rightarrow>
     (case find_record record_id recs 0 of
        None \<Rightarrow>
          (Inr (RError [Lit ''Record with id '', Fmt record_id,
                        Lit '' not found in table '', Fmt table_name]), st)
      | Some i \<Rightarrow>
          (Inr RSuccess,
           st\<lparr>tables := tbl_store (tables st) table_name (take i recs @ drop (Suc i) recs)\<rparr>))))))"

subsection \<open>list_tables\<close>

definition mcp_list_tables :: "store \<Rightarrow> response" where
  "mcp_list_tables st = RTables (map fst (tables st))"

section \<open>The request handler\<close>

text \<open>
  The body of the \<^verbatim>\<open>try\<close> block after the parameters are decoded: the chain of
  comparisons of \<^verbatim>\<open>function_name\<close>. An exception escapes with the store as it is at
  that moment.
\<close>

definition dispatch ::
  "(nat \<Rightarrow> string) \<Rightarrow> store \<Rightarrow> string \<Rightarrow> json \<Rightarrow> (exn + response) \<times> store" where
  "dispatch uuid4 st function_name parameters =
     (if function_name = ''query'' then (mcp_query st parameters, st)
      else if function_name = ''insert'' then mcp_insert uuid4 st parameters
      else if function_name = ''update'' then mcp_update st parameters
      else if function_name = ''delete'' then mcp_delete st parameters
      else if function_name = ''list_tables'' then (Inr (mcp_list_tables st), st)
      else (Inr (RError [Lit ''Function '', Fmt (JStr function_name), Lit '' not supported'']), st))"

text \<open>The two \<^verbatim>\<open>except\<close> clauses.\<close>

fun except_clause :: "exn \<Rightarrow> response" where
  "except_clause JSONDecodeError = RError [Lit ''Invalid JSON in request body'']"
| "except_clause e = RError [ExcStr e]"

text \<open>
  \<^verbatim>\<open>handle_mcp_request\<close>. The body is the byte string of the request; \<open>loads\<close> is
  \<^verbatim>\<open>json.loads\<close>, a parameter: it returns the decoded value or the exception it
  raises. It is not called on an empty body.
\<close>

definition handle_mcp_request ::
  "(string \<Rightarrow> exn + json) \<Rightarrow> (nat \<Rightarrow> string) \<Rightarrow> store \<Rightarrow> string \<Rightarrow> string \<Rightarrow> response \<times> store" where
  "handle_mcp_request loads uuid4 st function_name body =
     (case (if body \<noteq> [] then loads body else Inr (JObj [])) of
        Inl e \<Rightarrow> (except_clause e, st)
      | Inr parameters \<Rightarrow>
     (case dispatch uuid4 st function_name parameters of
        (Inl e, st1) \<Rightarrow> (except_clause e, st1)
      | (Inr result, st1) \<Rightarrow> (result, st1)))"

text \<open>A sequence of requests (function name and body), served one after the other.\<close>

fun serve ::
  "(string \<Rightarrow> exn + json) \<Rightarrow> (nat \<Rightarrow> string) \<Rightarrow> store \<Rightarrow> (string \<times> string) list \<Rightarrow> store" where
  "serve loads uuid4 st [] = st"
| "serve loads uuid4 st ((function_name, body) # rest) =
     serve loads uuid4 (snd (handle_mcp_request loads uuid4 st function_name body)) rest"


section \<open>Invariants of the store\<close>

text \<open>
  Every key of \<^verbatim>\<open>tables\<close> is a value that passed \<^verbatim>\<open>if not table_name\<close> and was
  hashed: the initial names are such, and \<^verbatim>\<open>insert\<close> is the only place that adds a key.
\<close>

definition names_ok :: "(json \<times> 'a) list \<Rightarrow> bool" where
  "names_ok tbls = list_all (\<lambda>(k, v). truthy k \<and> hashable k) tbls"

text \<open>Every record of every table has the key \<^verbatim>\<open>id\<close>.\<close>

definition has_ids :: "(json \<times> dict list) list \<Rightarrow> bool" where
  "has_ids tbls = list_all (\<lambda>(k, recs). list_all (\<lambda>rcd. map_of rcd ''id'' \<noteq> None) recs) tbls"

section \<open>Key equality and table access\<close>

lemma py_eq_refl_hashable: "hashable k \<Longrightarrow> py_eq k k"
  by (cases k) simp_all

lemma py_eq_truthy: "py_eq a b \<Longrightarrow> truthy a = truthy b"
  by (cases a; cases b) (auto split: if_splits)

lemma py_eq_hashable: "py_eq a b \<Longrightarrow> hashable a = hashable b"
  by (cases a; cases b) simp_all

lemma py_eq_trans_key: "py_eq k a \<Longrightarrow> py_eq k b \<Longrightarrow> hashable a \<Longrightarrow> py_eq a b"
  by (cases k; cases a; cases b) (auto split: if_splits)

lemma tbl_lookup_store_same: "hashable key \<Longrightarrow> tbl_lookup (tbl_store tbls key v) key = Some v"
  by (induction tbls key v rule: tbl_store.induct) (simp_all add: py_eq_refl_hashable)

lemma tbl_lookup_store_other:
  "hashable key \<Longrightarrow> \<not> py_eq key other \<Longrightarrow> tbl_lookup (tbl_store tbls key v) other = tbl_lookup tbls other"
  by (induction tbls key v rule: tbl_store.induct) (auto dest: py_eq_trans_key)

lemma tbl_store_store: "hashable key \<Longrightarrow> tbl_store (tbl_store tbls key a) key b = tbl_store tbls key b"
  by (induction tbls key a rule: tbl_store.induct) (simp_all add: py_eq_refl_hashable)


lemma tbl_store_keys_present: "tbl_lookup tbls key = Some old \<Longrightarrow> map fst (tbl_store tbls key v) = map fst tbls"
  by (induction tbls key v rule: tbl_store.induct) (auto split: if_splits)


lemma tbl_lookup_decomp:
  "tbl_lookup tbls key = Some v \<Longrightarrow>
   \<exists>A k B. tbls = A @ (k, v) # B \<and> py_eq k key \<and> list_all (\<lambda>(k', _). \<not> py_eq k' key) A"
proof (induction tbls key rule: tbl_lookup.induct)
  case (1 key)
  then show ?case by simp
next
  case (2 k v' rest key)
  show ?case
  proof (cases "py_eq k key")
    case True
    with 2 have "(k, v') # rest = [] @ (k, v) # rest \<and> py_eq k key \<and> list_all (\<lambda>(k', _). \<not> py_eq k' key) []" by simp
    then show ?thesis by blast
  next
    case False
    with 2 obtain A k0 B where "rest = A @ (k0, v) # B" "py_eq k0 key" "list_all (\<lambda>(k', _). \<not> py_eq k' key) A"
      by auto
    with False have "(k, v') # rest = ((k, v') # A) @ (k0, v) # B \<and> py_eq k0 key \<and> list_all (\<lambda>(k', _). \<not> py_eq k' key) ((k, v') # A)"
      by simp
    then show ?thesis by blast
  qed
qed

lemma tbl_store_decomp:
  "py_eq k key \<Longrightarrow> list_all (\<lambda>(k', _). \<not> py_eq k' key) A \<Longrightarrow>
   tbl_store (A @ (k, old) # B) key v = A @ (k, v) # B"
  by (induction A) auto

lemma find_record_None: "find_record i recs n = None \<longleftrightarrow> list_all (\<lambda>r. \<not> py_eq (get_id r) i) recs"
  by (induction recs arbitrary: n) auto

lemma find_record_first:
  "list_all (\<lambda>r. \<not> py_eq (get_id r) i) pre \<Longrightarrow> py_eq (get_id r) i \<Longrightarrow>
   find_record i (pre @ r # post) n = Some (n + length pre)"
  by (induction pre arbitrary: n) auto

lemma find_record_Some:
  "find_record i recs n = Some m \<Longrightarrow>
   n \<le> m \<and> m - n < length recs \<and> py_eq (get_id (recs ! (m - n))) i \<and>
   list_all (\<lambda>r. \<not> py_eq (get_id r) i) (take (m - n) recs)"
proof (induction recs arbitrary: n)
  case Nil
  then show ?case by simp
next
  case (Cons r recs)
  show ?case
  proof (cases "py_eq (get_id r) i")
    case True
    with Cons.prems show ?thesis by simp
  next
    case False
    with Cons.prems have f: "find_record i recs (Suc n) = Some m" by simp
    from Cons.IH[OF f] have "Suc n \<le> m" "m - Suc n < length recs" "py_eq (get_id (recs ! (m - Suc n))) i"
       "list_all (\<lambda>r. \<not> py_eq (get_id r) i) (take (m - Suc n) recs)" by auto
    moreover from \<open>Suc n \<le> m\<close> have "m - n = Suc (m - Suc n)" by arith
    ultimately show ?thesis using False by simp
  qed
qed

lemma map_of_apply_updates:
  "map_of (apply_updates U r) = map_of r ++ map_of (rev U)"
  by (induction U r rule: apply_updates.induct) (auto simp: update_conv' map_add_def fun_eq_iff split: option.splits)

lemma apply_updates_keys: "fst ` set r \<subseteq> fst ` set (apply_updates U r)"
  by (simp add: dom_map_of_conv_image_fst[symmetric] map_of_apply_updates)

lemma item_matches_iff:
  "item_matches item F \<longleftrightarrow> (\<forall>(k, v) \<in> set F. \<exists>x. map_of item k = Some x \<and> py_eq x v)"
  by (induction item F rule: item_matches.induct) (auto split: option.splits)

lemma filter_loop_dict:
  "filter_loop (JObj F) recs acc = Inr (acc @ filter (\<lambda>item. item_matches item F) recs)"
  by (induction recs arbitrary: acc) auto

lemma names_ok_lookup:
  "names_ok tbls \<Longrightarrow> tbl_lookup tbls key = Some v \<Longrightarrow> truthy key \<and> hashable key"
  unfolding names_ok_def
  by (induction tbls key rule: tbl_lookup.induct)
     (auto split: if_splits dest: py_eq_truthy py_eq_hashable)

lemma py_contains_present:
  "hashable key \<Longrightarrow> tbl_lookup tbls key = Some v \<Longrightarrow> py_contains tbls key = Inr True"
  by (simp add: py_contains_def)

lemma py_contains_absent:
  "hashable key \<Longrightarrow> tbl_lookup tbls key = None \<Longrightarrow> py_contains tbls key = Inr False"
  by (simp add: py_contains_def)

section \<open>query\<close>

text \<open>
  C1 (as amended). For a table \<open>T\<close> present in the store with records \<open>recs\<close> and a
  filter dictionary \<open>F\<close>, \<^verbatim>\<open>query\<close> returns, in table order, exactly the records in
  which every key of \<open>F\<close> is present with a value equal to the filter value under
  Python's \<^verbatim>\<open>==\<close> (\<open>py_eq\<close>: deep on lists and dictionaries, and numeric between
  booleans and integers); with the empty filter it returns all of \<open>recs\<close>.
\<close>

theorem query_returns_matching:
  assumes "names_ok (tables st)"
      and "tbl_lookup (tables st) T = Some recs"
      and "py_get parameters ''table'' JNull = Inr T"
      and "py_get parameters ''filters'' (JObj []) = Inr (JObj F)"
    shows "mcp_query st parameters =
             Inr (RData (filter (\<lambda>item. \<forall>(k, v) \<in> set F. \<exists>x. map_of item k = Some x \<and> py_eq x v) recs))
           \<and> (F = [] \<longrightarrow> mcp_query st parameters = Inr (RData recs))"
proof -
  from names_ok_lookup [OF assms(1,2)] have T: "truthy T" "hashable T"
    by simp_all
  with assms(2) have c: "py_contains (tables st) T = Inr True"
    by (simp add: py_contains_present)
  have "mcp_query st parameters =
          Inr (RData (if F = [] then recs else filter (\<lambda>item. item_matches item F) recs))"
    by (simp add: mcp_query_def assms(2,3,4) T c filter_loop_dict)
  then show ?thesis
    by (simp add: item_matches_iff)
qed

text \<open>The scenario of the specification: \<^verbatim>\<open>query("users", {"name": "John Doe"})\<close>.\<close>

theorem query_returns_matching_witness:
  "names_ok (tables store_init) \<and>
   mcp_query store_init
     (JObj [(''table'', JStr ''users''), (''filters'', JObj [(''name'', JStr ''John Doe'')])]) =
   Inr (RData [[(''id'', JStr ''1''), (''name'', JStr ''John Doe''), (''email'', JStr ''john@example.com'')]])"
proof -
  have n: "names_ok (tables store_init)"
    by (simp add: names_ok_def store_init_def tables_init_def)
  have l: "tbl_lookup (tables store_init) (JStr ''users'') = Some (snd (hd tables_init))"
    by (simp add: store_init_def tables_init_def)
  show ?thesis
    using n query_returns_matching [OF n l,
        of "JObj [(''table'', JStr ''users''), (''filters'', JObj [(''name'', JStr ''John Doe'')])]"
           "[(''name'', JStr ''John Doe'')]"]
    by (simp add: tables_init_def)
qed

text \<open>
  C1 as stated fails: the filter \<^verbatim>\<open>{"active": 1}\<close> returns the record whose field
  \<^verbatim>\<open>active\<close> is \<^verbatim>\<open>true\<close>, because \<^verbatim>\<open>True != 1\<close> is false in Python, although the
  JSON values \<^verbatim>\<open>true\<close> and \<^verbatim>\<open>1\<close> are not structurally equal.
\<close>

theorem query_structural_equality_counterexample:
  "mcp_query \<lparr>tables = [(JStr ''flags'', [[(''id'', JStr ''1''), (''active'', JBool True)]])], uuid_draws = 0\<rparr>
     (JObj [(''table'', JStr ''flags''), (''filters'', JObj [(''active'', JInt 1)])]) =
   Inr (RData [[(''id'', JStr ''1''), (''active'', JBool True)]])
   \<and> JBool True \<noteq> JInt 1"
  by (simp add: mcp_query_def py_contains_def)

section \<open>update and delete\<close>

lemma mcp_update_found:
  assumes "truthy T" and "hashable T" and "truthy i"
      and "tbl_lookup (tables st) T = Some (pre @ r # post)"
      and "list_all (\<lambda>p. \<not> py_eq (get_id p) i) pre" and "py_eq (get_id r) i"
      and "py_get parameters ''table'' JNull = Inr T"
      and "py_get parameters ''id'' JNull = Inr i"
      and "py_get parameters ''updates'' (JObj []) = Inr (JObj U)"
      and "U \<noteq> []"
    shows "mcp_update st parameters =
             (Inr RSuccess, st\<lparr>tables := tbl_store (tables st) T (pre @ apply_updates U r # post)\<rparr>)"
proof -
  have c: "py_contains (tables st) T = Inr True"
    using assms(2,4) by (simp add: py_contains_present)
  have f: "find_record i (pre @ r # post) 0 = Some (length pre)"
    using find_record_first [OF assms(5,6), of post 0] by simp
  show ?thesis
    by (simp add: mcp_update_def assms(1,3,4,7,8,9,10) c f)
qed

lemma mcp_update_no_match:
  assumes "truthy T" and "hashable T" and "truthy i" and "truthy U"
      and "tbl_lookup (tables st) T = Some recs"
      and "list_all (\<lambda>p. \<not> py_eq (get_id p) i) recs"
      and "py_get parameters ''table'' JNull = Inr T"
      and "py_get parameters ''id'' JNull = Inr i"
      and "py_get parameters ''updates'' (JObj []) = Inr U"
    shows "mcp_update st parameters =
             (Inr (RError [Lit ''Record with id '', Fmt i, Lit '' not found in table '', Fmt T]), st)"
proof -
  have c: "py_contains (tables st) T = Inr True"
    using assms(2,5) by (simp add: py_contains_present)
  have f: "find_record i recs 0 = None"
    using assms(6) by (simp add: find_record_None)
  show ?thesis
    by (simp add: mcp_update_def assms(1,3,4,5,7,8,9) c f)
qed

lemma mcp_update_no_table:
  assumes "truthy T" and "hashable T" and "truthy i" and "truthy U"
      and "tbl_lookup (tables st) T = None"
      and "py_get parameters ''table'' JNull = Inr T"
      and "py_get parameters ''id'' JNull = Inr i"
      and "py_get parameters ''updates'' (JObj []) = Inr U"
    shows "mcp_update st parameters = (Inr (RError [Lit ''Table '', Fmt T, Lit '' not found'']), st)"
  by (simp add: mcp_update_def assms py_contains_absent)

lemma mcp_update_unchanged:
  "fst (mcp_update st p) \<noteq> Inr RSuccess \<Longrightarrow> snd (mcp_update st p) = st"
  by (auto simp: mcp_update_def split: sum.splits bool.splits option.splits if_splits)

lemma apply_updates_sets:
  "distinct (map fst U) \<Longrightarrow> (k, v) \<in> set U \<Longrightarrow> map_of (apply_updates U r) k = Some v"
  by (simp add: map_of_apply_updates map_add_def distinct_rev rev_map [symmetric])

lemma apply_updates_keeps:
  "k \<notin> fst ` set U \<Longrightarrow> map_of (apply_updates U r) k = map_of r k"
  by (simp add: map_of_apply_updates map_add_def map_of_eq_None_iff [THEN iffD2])

lemma mcp_delete_found:
  assumes "truthy T" and "hashable T" and "truthy i"
      and "tbl_lookup (tables st) T = Some (pre @ r # post)"
      and "list_all (\<lambda>p. \<not> py_eq (get_id p) i) pre" and "py_eq (get_id r) i"
      and "py_get parameters ''table'' JNull = Inr T"
      and "py_get parameters ''id'' JNull = Inr i"
    shows "mcp_delete st parameters =
             (Inr RSuccess, st\<lparr>tables := tbl_store (tables st) T (pre @ post)\<rparr>)"
proof -
  have c: "py_contains (tables st) T = Inr True"
    using assms(2,4) by (simp add: py_contains_present)
  have f: "find_record i (pre @ r # post) 0 = Some (length pre)"
    using find_record_first [OF assms(5,6), of post 0] by simp
  show ?thesis
    by (simp add: mcp_delete_def assms(1,3,4,7,8) c f)
qed

lemma mcp_delete_no_match:
  assumes "truthy T" and "hashable T" and "truthy i"
      and "tbl_lookup (tables st) T = Some recs"
      and "list_all (\<lambda>p. \<not> py_eq (get_id p) i) recs"
      and "py_get parameters ''table'' JNull = Inr T"
      and "py_get parameters ''id'' JNull = Inr i"
    shows "mcp_delete st parameters =
             (Inr (RError [Lit ''Record with id '', Fmt i, Lit '' not found in table '', Fmt T]), st)"
proof -
  have c: "py_contains (tables st) T = Inr True"
    using assms(2,4) by (simp add: py_contains_present)
  have f: "find_record i recs 0 = None"
    using assms(5) by (simp add: find_record_None)
  show ?thesis
    by (simp add: mcp_delete_def assms(1,3,4,6,7) c f)
qed

lemma mcp_delete_no_table:
  assumes "truthy T" and "hashable T" and "truthy i"
      and "tbl_lookup (tables st) T = None"
      and "py_get parameters ''table'' JNull = Inr T"
      and "py_get parameters ''id'' JNull = Inr i"
    shows "mcp_delete st parameters = (Inr (RError [Lit ''Table '', Fmt T, Lit '' not found'']), st)"
  by (simp add: mcp_delete_def assms py_contains_absent)

lemma mcp_delete_unchanged:
  "fst (mcp_delete st p) \<noteq> Inr RSuccess \<Longrightarrow> snd (mcp_delete st p) = st"
  by (auto simp: mcp_delete_def split: sum.splits bool.splits option.splits if_splits)

lemma list_all_split_first:
  "\<not> list_all P xs \<Longrightarrow> \<exists>pre x post. xs = pre @ x # post \<and> list_all P pre \<and> \<not> P x"
proof (induction xs)
  case Nil
  then show ?case by simp
next
  case (Cons a xs)
  show ?case
  proof (cases "P a")
    case False
    then have "a # xs = [] @ a # xs \<and> list_all P [] \<and> \<not> P a" by simp
    then show ?thesis by blast
  next
    case True
    with Cons obtain pre x post where "xs = pre @ x # post" "list_all P pre" "\<not> P x" by auto
    with True have "a # xs = (a # pre) @ x # post \<and> list_all P (a # pre) \<and> \<not> P x" by simp
    then show ?thesis by blast
  qed
qed


text \<open>
  C2 (as amended). Let \<open>T\<close> be a table of the store whose records are \<open>pre @ r # post\<close>,
  where \<open>r\<close> is the first record whose \<^verbatim>\<open>id\<close> equals \<open>i\<close> (\<^verbatim>\<open>record.get("id") == record_id\<close>),
  let \<open>i\<close> be truthy and \<open>U\<close> a non-empty dictionary. Then \<^verbatim>\<open>update\<close> returns
  \<^verbatim>\<open>{"success": True}\<close>; afterwards the table is \<open>pre @ r1 # post\<close>, where \<open>r1\<close> has the
  value \<open>v\<close> at \<open>k\<close> for every \<open>(k, v)\<close> in \<open>U\<close> and the value of \<open>r\<close> at every other key.
  The records before and after \<open>r\<close> (also later ones with the same id), the other
  tables, the table names and the random source are unchanged.
\<close>

theorem update_first_match:
  assumes "names_ok (tables st)"
      and "tbl_lookup (tables st) T = Some (pre @ r # post)"
      and "list_all (\<lambda>p. \<not> py_eq (get_id p) i) pre" and "py_eq (get_id r) i"
      and "truthy i"
      and "U \<noteq> []" and "distinct (map fst U)"
      and "py_get parameters ''table'' JNull = Inr T"
      and "py_get parameters ''id'' JNull = Inr i"
      and "py_get parameters ''updates'' (JObj []) = Inr (JObj U)"
    shows "\<exists>st1 r1.
             mcp_update st parameters = (Inr RSuccess, st1) \<and>
             tbl_lookup (tables st1) T = Some (pre @ r1 # post) \<and>
             (\<forall>(k, v) \<in> set U. map_of r1 k = Some v) \<and>
             (\<forall>k. k \<notin> fst ` set U \<longrightarrow> map_of r1 k = map_of r k) \<and>
             (\<forall>other. \<not> py_eq T other \<longrightarrow> tbl_lookup (tables st1) other = tbl_lookup (tables st) other) \<and>
             map fst (tables st1) = map fst (tables st) \<and>
             uuid_draws st1 = uuid_draws st"
proof -
  from names_ok_lookup [OF assms(1,2)] have T: "truthy T" "hashable T"
    by simp_all
  let ?r1 = "apply_updates U r"
  let ?st1 = "st\<lparr>tables := tbl_store (tables st) T (pre @ ?r1 # post)\<rparr>"
  have "mcp_update st parameters = (Inr RSuccess, ?st1)"
    using mcp_update_found [OF T assms(5,2,3,4,8,9,10,6)] .
  moreover have "tbl_lookup (tables ?st1) T = Some (pre @ ?r1 # post)"
    using T by (simp add: tbl_lookup_store_same)
  moreover have "\<forall>(k, v) \<in> set U. map_of ?r1 k = Some v"
    using assms(7) by (auto simp: apply_updates_sets)
  moreover have "\<forall>k. k \<notin> fst ` set U \<longrightarrow> map_of ?r1 k = map_of r k"
    by (simp add: apply_updates_keeps)
  moreover have "\<forall>other. \<not> py_eq T other \<longrightarrow> tbl_lookup (tables ?st1) other = tbl_lookup (tables st) other"
    using T by (simp add: tbl_lookup_store_other)
  moreover have "map fst (tables ?st1) = map fst (tables st)"
    using assms(2) by (simp add: tbl_store_keys_present)
  moreover have "uuid_draws ?st1 = uuid_draws st" by simp
  ultimately show ?thesis by blast
qed

text \<open>The scenario of the specification: \<^verbatim>\<open>update("posts", "1", {"title": "Edited"})\<close>.\<close>

theorem update_first_match_witness:
  "names_ok (tables store_init) \<and>
   (\<exists>st1 r1.
      mcp_update store_init
        (JObj [(''table'', JStr ''posts''), (''id'', JStr ''1''),
               (''updates'', JObj [(''title'', JStr ''Edited'')])]) = (Inr RSuccess, st1) \<and>
      tbl_lookup (tables st1) (JStr ''posts'') =
        Some ([] @ r1 # [[(''id'', JStr ''2''), (''title'', JStr ''Second Post''),
                          (''content'', JStr ''Another post''), (''user_id'', JStr ''2'')]]) \<and>
      map_of r1 ''title'' = Some (JStr ''Edited'') \<and>
      map_of r1 ''content'' = Some (JStr ''Hello World''))"
proof -
  let ?r = "[(''id'', JStr ''1''), (''title'', JStr ''First Post''), (''content'', JStr ''Hello World''),
             (''user_id'', JStr ''1'')]"
  let ?post = "[[(''id'', JStr ''2''), (''title'', JStr ''Second Post''),
                 (''content'', JStr ''Another post''), (''user_id'', JStr ''2'')]]"
  let ?P = "JObj [(''table'', JStr ''posts''), (''id'', JStr ''1''),
                  (''updates'', JObj [(''title'', JStr ''Edited'')])]"
  have n: "names_ok (tables store_init)"
    by (simp add: names_ok_def store_init_def tables_init_def)
  have l: "tbl_lookup (tables store_init) (JStr ''posts'') = Some ([] @ ?r # ?post)"
    by (simp add: store_init_def tables_init_def)
  have p: "list_all (\<lambda>p. \<not> py_eq (get_id p) (JStr ''1'')) []" by simp
  have m: "py_eq (get_id ?r) (JStr ''1'')" by (simp add: get_id_def)
  have t: "truthy (JStr ''1'')" by simp
  have u: "[(''title'', JStr ''Edited'')] \<noteq> []" "distinct (map fst [(''title'', JStr ''Edited'')])"
    by simp_all
  have g: "py_get ?P ''table'' JNull = Inr (JStr ''posts'')" "py_get ?P ''id'' JNull = Inr (JStr ''1'')"
    "py_get ?P ''updates'' (JObj []) = Inr (JObj [(''title'', JStr ''Edited'')])"
    by simp_all
  from update_first_match [OF n l p m t u g]
  obtain st1 r1 where
    "mcp_update store_init ?P = (Inr RSuccess, st1)"
    "tbl_lookup (tables st1) (JStr ''posts'') = Some ([] @ r1 # ?post)"
    "\<forall>(k, v) \<in> set [(''title'', JStr ''Edited'')]. map_of r1 k = Some v"
    "\<forall>k. k \<notin> fst ` set [(''title'', JStr ''Edited'')] \<longrightarrow> map_of r1 k = map_of ?r k"
    by blast
  moreover from this(3) have "map_of r1 ''title'' = Some (JStr ''Edited'')" by simp
  moreover from calculation(4) have "map_of r1 ''content'' = Some (JStr ''Hello World'')" by simp
  ultimately show ?thesis using n by blast
qed

text \<open>
  C2 as stated fails for an id that is not truthy: a record whose \<^verbatim>\<open>id\<close> is \<^verbatim>\<open>0\<close>
  is matched by \<open>i = 0\<close>, but \<^verbatim>\<open>if not record_id\<close> returns before the scan.
\<close>

theorem update_falsy_id_counterexample:
  "mcp_update \<lparr>tables = [(JStr ''t'', [[(''id'', JInt 0), (''n'', JInt 1)]])], uuid_draws = 0\<rparr>
     (JObj [(''table'', JStr ''t''), (''id'', JInt 0), (''updates'', JObj [(''n'', JInt 2)])]) =
   (Inr (RError [Lit ''id parameter is required'']),
    \<lparr>tables = [(JStr ''t'', [[(''id'', JInt 0), (''n'', JInt 1)]])], uuid_draws = 0\<rparr>)
   \<and> py_eq (get_id [(''id'', JInt 0), (''n'', JInt 1)]) (JInt 0)"
  by (simp add: mcp_update_def get_id_def)

text \<open>
  C3 (as amended). Let \<open>T\<close> be a table of the store whose records are \<open>pre @ r # post\<close>,
  where \<open>r\<close> is the first record whose \<^verbatim>\<open>id\<close> equals \<open>i\<close>, and let \<open>i\<close> be truthy. Then
  \<^verbatim>\<open>delete\<close> returns \<^verbatim>\<open>{"success": True}\<close> and the table becomes \<open>pre @ post\<close>, one record
  shorter; everything else is unchanged. The same \<^verbatim>\<open>delete\<close> repeated at once reports
  the record as not found if no record of \<open>post\<close> has the id \<open>i\<close>, and succeeds again
  otherwise.
\<close>

theorem delete_first_match:
  assumes "names_ok (tables st)"
      and "tbl_lookup (tables st) T = Some (pre @ r # post)"
      and "list_all (\<lambda>p. \<not> py_eq (get_id p) i) pre" and "py_eq (get_id r) i"
      and "truthy i"
      and "py_get parameters ''table'' JNull = Inr T"
      and "py_get parameters ''id'' JNull = Inr i"
    shows "\<exists>st1.
             mcp_delete st parameters = (Inr RSuccess, st1) \<and>
             tbl_lookup (tables st1) T = Some (pre @ post) \<and>
             Suc (length (pre @ post)) = length (pre @ r # post) \<and>
             (\<forall>other. \<not> py_eq T other \<longrightarrow> tbl_lookup (tables st1) other = tbl_lookup (tables st) other) \<and>
             map fst (tables st1) = map fst (tables st) \<and>
             uuid_draws st1 = uuid_draws st \<and>
             (if list_all (\<lambda>p. \<not> py_eq (get_id p) i) post
              then mcp_delete st1 parameters =
                     (Inr (RError [Lit ''Record with id '', Fmt i, Lit '' not found in table '', Fmt T]), st1)
              else fst (mcp_delete st1 parameters) = Inr RSuccess)"
proof -
  from names_ok_lookup [OF assms(1,2)] have T: "truthy T" "hashable T"
    by simp_all
  let ?st1 = "st\<lparr>tables := tbl_store (tables st) T (pre @ post)\<rparr>"
  have l1: "tbl_lookup (tables ?st1) T = Some (pre @ post)"
    using T by (simp add: tbl_lookup_store_same)
  have again: "if list_all (\<lambda>p. \<not> py_eq (get_id p) i) post
              then mcp_delete ?st1 parameters =
                     (Inr (RError [Lit ''Record with id '', Fmt i, Lit '' not found in table '', Fmt T]), ?st1)
              else fst (mcp_delete ?st1 parameters) = Inr RSuccess"
  proof (cases "list_all (\<lambda>p. \<not> py_eq (get_id p) i) post")
    case True
    with assms(3) have "list_all (\<lambda>p. \<not> py_eq (get_id p) i) (pre @ post)" by simp
    from mcp_delete_no_match [OF T assms(5) l1 this assms(6,7)] True show ?thesis by simp
  next
    case False
    from list_all_split_first [OF False] obtain a x b where
      s: "post = a @ x # b" "list_all (\<lambda>p. \<not> py_eq (get_id p) i) a" "py_eq (get_id x) i" by auto
    from l1 s(1) have l2: "tbl_lookup (tables ?st1) T = Some ((pre @ a) @ x # b)" by simp
    from assms(3) s(2) have "list_all (\<lambda>p. \<not> py_eq (get_id p) i) (pre @ a)" by simp
    from mcp_delete_found [OF T assms(5) l2 this s(3) assms(6,7)] False show ?thesis by simp
  qed
  have "mcp_delete st parameters = (Inr RSuccess, ?st1)"
    using mcp_delete_found [OF T assms(5,2,3,4,6,7)] .
  moreover have "\<forall>other. \<not> py_eq T other \<longrightarrow> tbl_lookup (tables ?st1) other = tbl_lookup (tables st) other"
    using T by (simp add: tbl_lookup_store_other)
  moreover have "map fst (tables ?st1) = map fst (tables st)"
    using assms(2) by (simp add: tbl_store_keys_present)
  moreover have "uuid_draws ?st1 = uuid_draws st" by simp
  moreover have "Suc (length (pre @ post)) = length (pre @ r # post)" by simp
  ultimately show ?thesis using l1 again by blast
qed

theorem delete_first_match_witness:
  "names_ok (tables store_init) \<and>
   (\<exists>st1.
      mcp_delete store_init (JObj [(''table'', JStr ''users''), (''id'', JStr ''2'')]) = (Inr RSuccess, st1) \<and>
      tbl_lookup (tables st1) (JStr ''users'') =
        Some [[(''id'', JStr ''1''), (''name'', JStr ''John Doe''), (''email'', JStr ''john@example.com'')]] \<and>
      mcp_delete st1 (JObj [(''table'', JStr ''users''), (''id'', JStr ''2'')]) =
        (Inr (RError [Lit ''Record with id '', Fmt (JStr ''2''), Lit '' not found in table '',
                      Fmt (JStr ''users'')]), st1))"
proof -
  let ?a = "[(''id'', JStr ''1''), (''name'', JStr ''John Doe''), (''email'', JStr ''john@example.com'')]"
  let ?r = "[(''id'', JStr ''2''), (''name'', JStr ''Jane Smith''), (''email'', JStr ''jane@example.com'')]"
  let ?P = "JObj [(''table'', JStr ''users''), (''id'', JStr ''2'')]"
  have n: "names_ok (tables store_init)"
    by (simp add: names_ok_def store_init_def tables_init_def)
  have l: "tbl_lookup (tables store_init) (JStr ''users'') = Some ([?a] @ ?r # [])"
    by (simp add: store_init_def tables_init_def)
  have p: "list_all (\<lambda>p. \<not> py_eq (get_id p) (JStr ''2'')) [?a]" by (simp add: get_id_def)
  have m: "py_eq (get_id ?r) (JStr ''2'')" by (simp add: get_id_def)
  have t: "truthy (JStr ''2'')" by simp
  have g: "py_get ?P ''table'' JNull = Inr (JStr ''users'')" "py_get ?P ''id'' JNull = Inr (JStr ''2'')"
    by simp_all
  from delete_first_match [OF n l p m t g] show ?thesis using n by simp blast
qed

text \<open>
  C3 as stated fails in two ways. With two records of the same id the repeated
  \<^verbatim>\<open>delete\<close> removes the second one and succeeds; and an id that is not truthy is
  rejected although a record has it.
\<close>

theorem delete_duplicate_id_counterexample:
  "mcp_delete \<lparr>tables = [(JStr ''t'', [[(''id'', JStr ''1''), (''n'', JInt 1)], [(''id'', JStr ''1''), (''n'', JInt 2)]])],
               uuid_draws = 0\<rparr>
     (JObj [(''table'', JStr ''t''), (''id'', JStr ''1'')]) =
   (Inr RSuccess, \<lparr>tables = [(JStr ''t'', [[(''id'', JStr ''1''), (''n'', JInt 2)]])], uuid_draws = 0\<rparr>)
   \<and>
   mcp_delete \<lparr>tables = [(JStr ''t'', [[(''id'', JStr ''1''), (''n'', JInt 2)]])], uuid_draws = 0\<rparr>
     (JObj [(''table'', JStr ''t''), (''id'', JStr ''1'')]) =
   (Inr RSuccess, \<lparr>tables = [(JStr ''t'', [])], uuid_draws = 0\<rparr>)
   \<and>
   mcp_delete \<lparr>tables = [(JStr ''t'', [[(''id'', JInt 0)]])], uuid_draws = 0\<rparr>
     (JObj [(''table'', JStr ''t''), (''id'', JInt 0)]) =
   (Inr (RError [Lit ''id parameter is required'']),
    \<lparr>tables = [(JStr ''t'', [[(''id'', JInt 0)]])], uuid_draws = 0\<rparr>)
   \<and> py_eq (get_id [(''id'', JInt 0)]) (JInt 0)"
  by (simp add: mcp_delete_def py_contains_def get_id_def)

text \<open>
  C5. Let the required parameters of \<^verbatim>\<open>update\<close> (dictionary \<open>p\<close>) and \<^verbatim>\<open>delete\<close>
  (dictionary \<open>q\<close>) be given: a truthy, hashable table name \<open>T\<close>, a truthy id \<open>i\<close> and
  truthy updates. If no table is named \<open>T\<close>, both return the error
  \<^verbatim>\<open>f"Table {table_name} not found"\<close>; if the table exists and none of its records has the
  id \<open>i\<close>, both return \<^verbatim>\<open>f"Record with id {record_id} not found in table {table_name}"\<close>;
  the store is unchanged in each case. More generally every outcome of \<^verbatim>\<open>update\<close> and
  \<^verbatim>\<open>delete\<close> other than \<^verbatim>\<open>{"success": True}\<close> leaves the store as it was.
\<close>

theorem not_found_leaves_store:
  assumes "truthy T" and "hashable T" and "truthy i" and "truthy U"
      and "py_get p ''table'' JNull = Inr T"
      and "py_get p ''id'' JNull = Inr i"
      and "py_get p ''updates'' (JObj []) = Inr U"
      and "py_get q ''table'' JNull = Inr T"
      and "py_get q ''id'' JNull = Inr i"
    shows "(tbl_lookup (tables st) T = None \<longrightarrow>
              mcp_update st p = (Inr (RError [Lit ''Table '', Fmt T, Lit '' not found'']), st) \<and>
              mcp_delete st q = (Inr (RError [Lit ''Table '', Fmt T, Lit '' not found'']), st))
         \<and> (\<forall>recs. tbl_lookup (tables st) T = Some recs \<and> list_all (\<lambda>r. \<not> py_eq (get_id r) i) recs \<longrightarrow>
              mcp_update st p =
                (Inr (RError [Lit ''Record with id '', Fmt i, Lit '' not found in table '', Fmt T]), st) \<and>
              mcp_delete st q =
                (Inr (RError [Lit ''Record with id '', Fmt i, Lit '' not found in table '', Fmt T]), st))
         \<and> (\<forall>st0 p0. fst (mcp_update st0 p0) \<noteq> Inr RSuccess \<longrightarrow> snd (mcp_update st0 p0) = st0)
         \<and> (\<forall>st0 q0. fst (mcp_delete st0 q0) \<noteq> Inr RSuccess \<longrightarrow> snd (mcp_delete st0 q0) = st0)"
  using mcp_update_no_table [OF assms(1,2,3,4) _ assms(5,6,7)]
        mcp_delete_no_table [OF assms(1,2,3) _ assms(8,9)]
        mcp_update_no_match [OF assms(1,2,3,4) _ _ assms(5,6,7)]
        mcp_delete_no_match [OF assms(1,2,3) _ _ assms(8,9)]
        mcp_update_unchanged mcp_delete_unchanged
  by blast

text \<open>
  The scenario of the specification, \<^verbatim>\<open>delete("users", "99")\<close>, and a table that does
  not exist.
\<close>

theorem not_found_leaves_store_witness:
  "mcp_delete store_init (JObj [(''table'', JStr ''users''), (''id'', JStr ''99'')]) =
     (Inr (RError [Lit ''Record with id '', Fmt (JStr ''99''), Lit '' not found in table '',
                   Fmt (JStr ''users'')]), store_init)
   \<and> mcp_update store_init
       (JObj [(''table'', JStr ''users''), (''id'', JStr ''99''), (''updates'', JObj [(''name'', JStr ''x'')])]) =
     (Inr (RError [Lit ''Record with id '', Fmt (JStr ''99''), Lit '' not found in table '',
                   Fmt (JStr ''users'')]), store_init)
   \<and> mcp_delete store_init (JObj [(''table'', JStr ''orders''), (''id'', JStr ''1'')]) =
     (Inr (RError [Lit ''Table '', Fmt (JStr ''orders''), Lit '' not found'']), store_init)
   \<and> mcp_update store_init
       (JObj [(''table'', JStr ''orders''), (''id'', JStr ''1''), (''updates'', JObj [(''name'', JStr ''x'')])]) =
     (Inr (RError [Lit ''Table '', Fmt (JStr ''orders''), Lit '' not found'']), store_init)"
proof -
  let ?p = "JObj [(''table'', JStr ''users''), (''id'', JStr ''99''), (''updates'', JObj [(''name'', JStr ''x'')])]"
  let ?q = "JObj [(''table'', JStr ''users''), (''id'', JStr ''99'')]"
  let ?p2 = "JObj [(''table'', JStr ''orders''), (''id'', JStr ''1''), (''updates'', JObj [(''name'', JStr ''x'')])]"
  let ?q2 = "JObj [(''table'', JStr ''orders''), (''id'', JStr ''1'')]"
  have t: "truthy (JStr ''users'')" "hashable (JStr ''users'')" "truthy (JStr ''99'')"
    "truthy (JObj [(''name'', JStr ''x'')])" by simp_all
  have g: "py_get ?p ''table'' JNull = Inr (JStr ''users'')" "py_get ?p ''id'' JNull = Inr (JStr ''99'')"
    "py_get ?p ''updates'' (JObj []) = Inr (JObj [(''name'', JStr ''x'')])"
    "py_get ?q ''table'' JNull = Inr (JStr ''users'')" "py_get ?q ''id'' JNull = Inr (JStr ''99'')"
    by simp_all
  have l: "tbl_lookup (tables store_init) (JStr ''users'') = Some (snd (hd tables_init))
           \<and> list_all (\<lambda>r. \<not> py_eq (get_id r) (JStr ''99'')) (snd (hd tables_init))"
    by (simp add: store_init_def tables_init_def get_id_def)
  have t2: "truthy (JStr ''orders'')" "hashable (JStr ''orders'')" "truthy (JStr ''1'')"
    "truthy (JObj [(''name'', JStr ''x'')])" by simp_all
  have g2: "py_get ?p2 ''table'' JNull = Inr (JStr ''orders'')" "py_get ?p2 ''id'' JNull = Inr (JStr ''1'')"
    "py_get ?p2 ''updates'' (JObj []) = Inr (JObj [(''name'', JStr ''x'')])"
    "py_get ?q2 ''table'' JNull = Inr (JStr ''orders'')" "py_get ?q2 ''id'' JNull = Inr (JStr ''1'')"
    by simp_all
  have l2: "tbl_lookup (tables store_init) (JStr ''orders'') = None"
    by (simp add: store_init_def tables_init_def)
  from not_found_leaves_store [OF t g, of store_init] l
       not_found_leaves_store [OF t2 g2, of store_init] l2
  show ?thesis by blast
qed

section \<open>insert\<close>

lemma tbl_store_same_value: "tbl_lookup tbls key = Some v \<Longrightarrow> tbl_store tbls key v = tbls"
  by (induction tbls key v rule: tbl_store.induct) (auto split: if_splits)

lemma insert_loop_step:
  "tbl_lookup (tables st) T = Some old \<Longrightarrow>
   insert_loop uuid4 T (JObj r # rest) acc st =
     insert_loop uuid4 T rest
       (acc @ [case map_of r ''id'' of None \<Rightarrow> JStr (uuid4 (uuid_draws st)) | Some v \<Rightarrow> v])
       (st\<lparr>uuid_draws := Suc (uuid_draws st),
           tables := tbl_store (tables st) T
               (old @ [AList.update ''id''
                        (case map_of r ''id'' of None \<Rightarrow> JStr (uuid4 (uuid_draws st)) | Some v \<Rightarrow> v) r])\<rparr>)"
  by (simp add: Let_def)

lemma insert_loop_dicts:
  assumes "hashable T"
  shows "tbl_lookup (tables st) T = Some old \<Longrightarrow>
         insert_loop uuid4 T (map JObj rs) acc st =
           (Inr (acc @ map (\<lambda>(n, r). case map_of r ''id'' of None \<Rightarrow> JStr (uuid4 n) | Some v \<Rightarrow> v)
                         (enumerate (uuid_draws st) rs)),
            st\<lparr>uuid_draws := uuid_draws st + length rs,
               tables := tbl_store (tables st) T
                   (old @ map (\<lambda>(n, r). AList.update ''id''
                                 (case map_of r ''id'' of None \<Rightarrow> JStr (uuid4 n) | Some v \<Rightarrow> v) r)
                              (enumerate (uuid_draws st) rs))\<rparr>)"
proof (induction rs arbitrary: st old acc)
  case Nil
  then show ?case by (simp add: tbl_store_same_value)
next
  case (Cons r rs)
  let ?d = "uuid_draws st"
  let ?id = "case map_of r ''id'' of None \<Rightarrow> JStr (uuid4 ?d) | Some v \<Rightarrow> v"
  let ?st2 = "st\<lparr>uuid_draws := Suc ?d, tables := tbl_store (tables st) T (old @ [AList.update ''id'' ?id r])\<rparr>"
  have l2: "tbl_lookup (tables ?st2) T = Some (old @ [AList.update ''id'' ?id r])"
    using assms by (simp add: tbl_lookup_store_same)
  have step: "insert_loop uuid4 T (map JObj (r # rs)) acc st =
                insert_loop uuid4 T (map JObj rs) (acc @ [?id]) ?st2"
    using insert_loop_step [OF Cons.prems] by simp
  show ?case
    unfolding step Cons.IH [OF l2]
    using assms by (simp add: tbl_store_store)
qed

lemma mcp_insert_dicts:
  assumes "truthy T" and "hashable T" and "rs \<noteq> []"
      and "py_get p ''table'' JNull = Inr T"
      and "py_get p ''records'' (JArr []) = Inr (JArr (map JObj rs))"
    shows "mcp_insert uuid4 st p =
             (Inr (RIds (map (\<lambda>(n, r). case map_of r ''id'' of None \<Rightarrow> JStr (uuid4 n) | Some v \<Rightarrow> v)
                            (enumerate (uuid_draws st) rs))),
              st\<lparr>uuid_draws := uuid_draws st + length rs,
                 tables := tbl_store (tables st) T
                   ((case tbl_lookup (tables st) T of None \<Rightarrow> [] | Some old \<Rightarrow> old) @
                    map (\<lambda>(n, r). AList.update ''id''
                           (case map_of r ''id'' of None \<Rightarrow> JStr (uuid4 n) | Some v \<Rightarrow> v) r)
                        (enumerate (uuid_draws st) rs))\<rparr>)"
proof (cases "tbl_lookup (tables st) T")
  case None
  let ?st1 = "st\<lparr>tables := tbl_store (tables st) T []\<rparr>"
  have l: "tbl_lookup (tables ?st1) T = Some []"
    using assms(2) by (simp add: tbl_lookup_store_same)
  have c: "py_contains (tables st) T = Inr False"
    using assms(2) None by (simp add: py_contains_absent)
  show ?thesis
    using assms(1,2,3)
    by (simp add: mcp_insert_def assms(4,5) c None insert_loop_dicts [OF assms(2) l] tbl_store_store)
next
  case (Some old)
  have c: "py_contains (tables st) T = Inr True"
    using assms(2) Some by (simp add: py_contains_present)
  show ?thesis
    using assms(1,2,3)
    by (simp add: mcp_insert_def assms(4,5) c Some insert_loop_dicts [OF assms(2) Some])
qed




section \<open>What every request preserves\<close>

text \<open>
  The store after each of the three functions that assign to \<^verbatim>\<open>tables\<close>, in terms of
  \<open>tbl_store\<close>; then the facts that hold from one request to the next: table names are
  never removed, the number of draws never decreases, every record has an \<^verbatim>\<open>id\<close>, and
  every table name is truthy and hashable.
\<close>

lemma mcp_insert_shape:
  "snd (mcp_insert uuid4 st p) = st \<or>
   (\<exists>T xs st1. truthy T \<and> hashable T \<and>
      (st1 = st \<or> st1 = st\<lparr>tables := tbl_store (tables st) T []\<rparr>) \<and>
      (snd (mcp_insert uuid4 st p) = st1 \<or>
       snd (mcp_insert uuid4 st p) = snd (insert_loop uuid4 T xs [] st1)))"
proof (cases "py_get p ''table'' JNull")
  case (Inl e)
  then show ?thesis by (simp add: mcp_insert_def)
next
  case T: (Inr T)
  show ?thesis
  proof (cases "py_get p ''records'' (JArr [])")
    case (Inl e)
    with T show ?thesis by (simp add: mcp_insert_def)
  next
    case R: (Inr R)
    show ?thesis
    proof (cases "truthy T \<and> truthy R \<and> hashable T")
      case False
      with T R show ?thesis by (auto simp: mcp_insert_def py_contains_def)
    next
      case True
      let ?st1 = "if tbl_lookup (tables st) T = None then st\<lparr>tables := tbl_store (tables st) T []\<rparr> else st"
      have s1: "?st1 = st \<or> ?st1 = st\<lparr>tables := tbl_store (tables st) T []\<rparr>" by simp
      show ?thesis
      proof (cases "py_iter R")
        case (Inl e)
        with T R True have "snd (mcp_insert uuid4 st p) = ?st1"
          by (simp add: mcp_insert_def py_contains_def)
        with True s1 show ?thesis by blast
      next
        case (Inr xs)
        obtain res st2 where l: "insert_loop uuid4 T xs [] ?st1 = (res, st2)"
          by (cases "insert_loop uuid4 T xs [] ?st1")
        with T R True Inr have "snd (mcp_insert uuid4 st p) = snd (insert_loop uuid4 T xs [] ?st1)"
          by (cases res) (simp_all add: mcp_insert_def py_contains_def)
        with True s1 show ?thesis by blast
      qed
    qed
  qed
qed

lemma mcp_update_shape:
  "snd (mcp_update st p) = st \<or>
   (\<exists>T recs i kvs. truthy T \<and> hashable T \<and> tbl_lookup (tables st) T = Some recs \<and> i < length recs \<and>
      snd (mcp_update st p) = st\<lparr>tables := tbl_store (tables st) T (recs[i := apply_updates kvs (recs ! i)])\<rparr>)"
proof (cases "fst (mcp_update st p) = Inr RSuccess")
  case False
  then show ?thesis by (simp add: mcp_update_unchanged)
next
  case True
  obtain T where T: "py_get p ''table'' JNull = Inr T"
    using True by (cases "py_get p ''table'' JNull") (simp_all add: mcp_update_def)
  obtain rid where rid: "py_get p ''id'' JNull = Inr rid"
    using True T by (cases "py_get p ''id'' JNull") (simp_all add: mcp_update_def)
  obtain U where U: "py_get p ''updates'' (JObj []) = Inr U"
    using True T rid by (cases "py_get p ''updates'' (JObj [])") (simp_all add: mcp_update_def)
  have t: "truthy T" "truthy rid" "truthy U"
    using True T rid U by (auto simp: mcp_update_def split: if_splits)
  have h: "hashable T"
    using True T rid U t by (auto simp: mcp_update_def py_contains_def split: if_splits)
  obtain recs where recs: "tbl_lookup (tables st) T = Some recs"
    using True T rid U t h
    by (cases "tbl_lookup (tables st) T") (simp_all add: mcp_update_def py_contains_def)
  have c: "py_contains (tables st) T = Inr True"
    using h recs by (simp add: py_contains_present)
  obtain i where i: "find_record rid recs 0 = Some i"
    using True T rid U t c recs
    by (cases "find_record rid recs 0") (simp_all add: mcp_update_def)
  obtain kvs where kvs: "py_items U = Inr kvs"
    using True T rid U t c recs i
    by (cases "py_items U") (simp_all add: mcp_update_def)
  have "snd (mcp_update st p) = st\<lparr>tables := tbl_store (tables st) T (recs[i := apply_updates kvs (recs ! i)])\<rparr>"
    using T rid U t c recs i kvs by (simp add: mcp_update_def)
  moreover from find_record_Some [OF i] have "i < length recs" by simp
  ultimately show ?thesis using t(1) h recs by blast
qed

lemma mcp_delete_shape:
  "snd (mcp_delete st p) = st \<or>
   (\<exists>T recs i. truthy T \<and> hashable T \<and> tbl_lookup (tables st) T = Some recs \<and>
      snd (mcp_delete st p) = st\<lparr>tables := tbl_store (tables st) T (take i recs @ drop (Suc i) recs)\<rparr>)"
proof (cases "fst (mcp_delete st p) = Inr RSuccess")
  case False
  then show ?thesis by (simp add: mcp_delete_unchanged)
next
  case True
  obtain T where T: "py_get p ''table'' JNull = Inr T"
    using True by (cases "py_get p ''table'' JNull") (simp_all add: mcp_delete_def)
  obtain rid where rid: "py_get p ''id'' JNull = Inr rid"
    using True T by (cases "py_get p ''id'' JNull") (simp_all add: mcp_delete_def)
  have t: "truthy T" "truthy rid"
    using True T rid by (auto simp: mcp_delete_def split: if_splits)
  have h: "hashable T"
    using True T rid t by (auto simp: mcp_delete_def py_contains_def split: if_splits)
  obtain recs where recs: "tbl_lookup (tables st) T = Some recs"
    using True T rid t h
    by (cases "tbl_lookup (tables st) T") (simp_all add: mcp_delete_def py_contains_def)
  have c: "py_contains (tables st) T = Inr True"
    using h recs by (simp add: py_contains_present)
  obtain i where i: "find_record rid recs 0 = Some i"
    using True T rid t c recs
    by (cases "find_record rid recs 0") (simp_all add: mcp_delete_def)
  have "snd (mcp_delete st p) = st\<lparr>tables := tbl_store (tables st) T (take i recs @ drop (Suc i) recs)\<rparr>"
    using T rid t c recs i by (simp add: mcp_delete_def)
  then show ?thesis using t(1) h recs by blast
qed

lemma insert_loop_preserves:
  assumes step: "\<And>s recs r. I s \<Longrightarrow> tbl_lookup (tables s) T = Some recs \<Longrightarrow> map_of r ''id'' \<noteq> None \<Longrightarrow>
                   I (s\<lparr>uuid_draws := Suc (uuid_draws s), tables := tbl_store (tables s) T (recs @ [r])\<rparr>)"
      and draw: "\<And>s. I s \<Longrightarrow> I (s\<lparr>uuid_draws := Suc (uuid_draws s)\<rparr>)"
    shows "I st \<Longrightarrow> I (snd (insert_loop uuid4 T xs acc st))"
proof (induction xs arbitrary: st acc)
  case Nil
  then show ?case by simp
next
  case (Cons x xs)
  show ?case
  proof (cases x)
    case (JObj kvs)
    show ?thesis
    proof (cases "tbl_lookup (tables st) T")
      case None
      with JObj draw [OF Cons.prems] show ?thesis by (simp add: Let_def)
    next
      case (Some recs)
      let ?id = "case map_of kvs ''id'' of None \<Rightarrow> JStr (uuid4 (uuid_draws st)) | Some v \<Rightarrow> v"
      let ?st2 = "st\<lparr>uuid_draws := Suc (uuid_draws st),
                      tables := tbl_store (tables st) T (recs @ [AList.update ''id'' ?id kvs])\<rparr>"
      have "map_of (AList.update ''id'' ?id kvs) ''id'' \<noteq> None"
        by (simp add: update_conv')
      from step [OF Cons.prems Some this] have "I ?st2" .
      from Cons.IH [OF this] show ?thesis
        using JObj insert_loop_step [OF Some, of uuid4 kvs xs acc] by simp
    qed
  qed (simp_all add: Cons.prems)
qed

lemma dispatch_shape:
  "snd (dispatch uuid4 st fn p) = st \<or>
   snd (dispatch uuid4 st fn p) = snd (mcp_insert uuid4 st p) \<or>
   snd (dispatch uuid4 st fn p) = snd (mcp_update st p) \<or>
   snd (dispatch uuid4 st fn p) = snd (mcp_delete st p)"
  by (simp add: dispatch_def)

lemma handle_shape:
  "snd (handle_mcp_request loads uuid4 st fn body) = st \<or>
   (\<exists>p. snd (handle_mcp_request loads uuid4 st fn body) = snd (dispatch uuid4 st fn p))"
proof (cases "if body \<noteq> [] then loads body else Inr (JObj [])")
  case (Inl e)
  then show ?thesis by (simp add: handle_mcp_request_def)
next
  case (Inr p)
  obtain res st1 where d: "dispatch uuid4 st fn p = (res, st1)"
    by (cases "dispatch uuid4 st fn p")
  with Inr have "snd (handle_mcp_request loads uuid4 st fn body) = snd (dispatch uuid4 st fn p)"
    by (cases res) (simp_all add: handle_mcp_request_def)
  then show ?thesis by blast
qed

lemma handle_preserves:
  assumes "Q st"
      and "\<And>p. Q (snd (mcp_insert uuid4 st p))"
      and "\<And>p. Q (snd (mcp_update st p))"
      and "\<And>p. Q (snd (mcp_delete st p))"
    shows "Q (snd (handle_mcp_request loads uuid4 st fn body))"
  using assms handle_shape [of loads uuid4 st fn body] dispatch_shape [of uuid4 st fn]
  by metis

lemma serve_preserves:
  assumes "\<And>s fn body. I s \<Longrightarrow> I (snd (handle_mcp_request loads uuid4 s fn body))"
  shows "I st \<Longrightarrow> I (serve loads uuid4 st reqs)"
  by (induction reqs arbitrary: st) (auto simp: assms)







lemma mcp_insert_draws: "uuid_draws st \<le> uuid_draws (snd (mcp_insert uuid4 st p))"
proof -
  have loop: "uuid_draws st \<le> uuid_draws s \<Longrightarrow>
        uuid_draws st \<le> uuid_draws (snd (insert_loop uuid4 T xs [] s))" for s T xs
    by (rule insert_loop_preserves [where I = "\<lambda>s. uuid_draws st \<le> uuid_draws s"]) auto
  have c: "uuid_draws st \<le> uuid_draws (st\<lparr>tables := tbl_store (tables st) T []\<rparr>)" for T
    by simp
  from mcp_insert_shape [of uuid4 st p] show ?thesis
    using loop c by (metis order_refl)
qed

lemma handle_draws:
  "uuid_draws st \<le> uuid_draws (snd (handle_mcp_request loads uuid4 st fn body))"
proof (rule handle_preserves [where Q = "\<lambda>s. uuid_draws st \<le> uuid_draws s"])
  show "uuid_draws st \<le> uuid_draws (snd (mcp_update st p))" for p
    using mcp_update_shape [of st p] by auto
  show "uuid_draws st \<le> uuid_draws (snd (mcp_delete st p))" for p
    using mcp_delete_shape [of st p] by auto
qed (simp_all add: mcp_insert_draws)

lemma serve_draws: "uuid_draws st \<le> uuid_draws (serve loads uuid4 st reqs)"
proof -
  have "uuid_draws st \<le> uuid_draws s \<Longrightarrow>
        uuid_draws st \<le> uuid_draws (snd (handle_mcp_request loads uuid4 s fn body))" for s fn body
    using handle_draws [of s loads uuid4 fn body] by simp
  from serve_preserves [where I = "\<lambda>s. uuid_draws st \<le> uuid_draws s", OF this]
  show ?thesis by blast
qed

lemma has_ids_store:
  "has_ids tbls \<Longrightarrow> list_all (\<lambda>rcd. map_of rcd ''id'' \<noteq> None) v \<Longrightarrow> has_ids (tbl_store tbls key v)"
  unfolding has_ids_def by (induction tbls key v rule: tbl_store.induct) auto

lemma has_ids_lookup:
  "has_ids tbls \<Longrightarrow> tbl_lookup tbls key = Some recs \<Longrightarrow> list_all (\<lambda>rcd. map_of rcd ''id'' \<noteq> None) recs"
  unfolding has_ids_def by (induction tbls key rule: tbl_lookup.induct) (auto split: if_splits)

lemma apply_updates_has_id:
  "map_of r ''id'' \<noteq> None \<Longrightarrow> map_of (apply_updates U r) ''id'' \<noteq> None"
  by (simp add: map_of_apply_updates map_add_def split: option.splits)

lemma list_all_update: "list_all P xs \<Longrightarrow> P y \<Longrightarrow> list_all P (xs[i := y])"
  by (induction xs arbitrary: i) (auto split: nat.splits)

lemma list_all_take_drop: "list_all P xs \<Longrightarrow> list_all P (take i xs @ drop j xs)"
  by (auto simp: list_all_iff dest: in_set_takeD in_set_dropD)

lemma mcp_insert_has_ids:
  assumes "has_ids (tables st)"
  shows "has_ids (tables (snd (mcp_insert uuid4 st p)))"
proof -
  have loop: "has_ids (tables s) \<Longrightarrow> has_ids (tables (snd (insert_loop uuid4 T xs [] s)))" for s T xs
    by (rule insert_loop_preserves [where I = "\<lambda>s. has_ids (tables s)"])
       (auto intro!: has_ids_store dest: has_ids_lookup)
  have c: "has_ids (tables (st\<lparr>tables := tbl_store (tables st) T []\<rparr>))" for T
    using assms by (simp add: has_ids_store)
  from mcp_insert_shape [of uuid4 st p] show ?thesis
    using loop c assms by metis
qed

lemma mcp_update_has_ids:
  assumes "has_ids (tables st)"
  shows "has_ids (tables (snd (mcp_update st p)))"
proof -
  from mcp_update_shape [of st p] show ?thesis
  proof
    assume "snd (mcp_update st p) = st"
    with assms show ?thesis by simp
  next
    assume "\<exists>T recs i kvs. truthy T \<and> hashable T \<and> tbl_lookup (tables st) T = Some recs \<and> i < length recs \<and>
      snd (mcp_update st p) = st\<lparr>tables := tbl_store (tables st) T (recs[i := apply_updates kvs (recs ! i)])\<rparr>"
    then obtain T recs i kvs where l: "tbl_lookup (tables st) T = Some recs" and i: "i < length recs"
      and s: "snd (mcp_update st p) = st\<lparr>tables := tbl_store (tables st) T (recs[i := apply_updates kvs (recs ! i)])\<rparr>"
      by blast
    from has_ids_lookup [OF assms l] have a: "list_all (\<lambda>rcd. map_of rcd ''id'' \<noteq> None) recs" .
    with i have "map_of (recs ! i) ''id'' \<noteq> None" by (simp add: list_all_length)
    then have "map_of (apply_updates kvs (recs ! i)) ''id'' \<noteq> None" by (rule apply_updates_has_id)
    with a have "list_all (\<lambda>rcd. map_of rcd ''id'' \<noteq> None) (recs[i := apply_updates kvs (recs ! i)])"
      by (rule list_all_update)
    with assms s show ?thesis by (simp add: has_ids_store)
  qed
qed

lemma mcp_delete_has_ids:
  assumes "has_ids (tables st)"
  shows "has_ids (tables (snd (mcp_delete st p)))"
proof -
  from mcp_delete_shape [of st p] show ?thesis
  proof
    assume "snd (mcp_delete st p) = st"
    with assms show ?thesis by simp
  next
    assume "\<exists>T recs i. truthy T \<and> hashable T \<and> tbl_lookup (tables st) T = Some recs \<and>
      snd (mcp_delete st p) = st\<lparr>tables := tbl_store (tables st) T (take i recs @ drop (Suc i) recs)\<rparr>"
    then obtain T recs i where l: "tbl_lookup (tables st) T = Some recs"
      and s: "snd (mcp_delete st p) = st\<lparr>tables := tbl_store (tables st) T (take i recs @ drop (Suc i) recs)\<rparr>"
      by blast
    from has_ids_lookup [OF assms l] have "list_all (\<lambda>rcd. map_of rcd ''id'' \<noteq> None) (take i recs @ drop (Suc i) recs)"
      by (rule list_all_take_drop)
    with assms s show ?thesis by (simp add: has_ids_store)
  qed
qed

lemma handle_has_ids:
  "has_ids (tables st) \<Longrightarrow> has_ids (tables (snd (handle_mcp_request loads uuid4 st fn body)))"
  by (rule handle_preserves [where Q = "\<lambda>s. has_ids (tables s)"])
     (simp_all add: mcp_insert_has_ids mcp_update_has_ids mcp_delete_has_ids)

lemma has_ids_init: "has_ids (tables store_init)"
  by (simp add: has_ids_def store_init_def tables_init_def)

lemma names_ok_store:
  "names_ok tbls \<Longrightarrow> truthy key \<Longrightarrow> hashable key \<Longrightarrow> names_ok (tbl_store tbls key v)"
  unfolding names_ok_def by (induction tbls key v rule: tbl_store.induct) auto

lemma mcp_insert_names_ok:
  assumes "names_ok (tables st)"
  shows "names_ok (tables (snd (mcp_insert uuid4 st p)))"
proof -
  have loop: "names_ok (tables s) \<Longrightarrow> names_ok (tables (snd (insert_loop uuid4 T xs [] s)))"
    if "truthy T" "hashable T" for s T xs
    by (rule insert_loop_preserves [where I = "\<lambda>s. names_ok (tables s)"])
       (use that in \<open>auto intro!: names_ok_store\<close>)
  have c: "truthy T \<Longrightarrow> hashable T \<Longrightarrow> names_ok (tables (st\<lparr>tables := tbl_store (tables st) T []\<rparr>))" for T
    using assms by (simp add: names_ok_store)
  from mcp_insert_shape [of uuid4 st p] show ?thesis
    using loop c assms by metis
qed

lemma handle_names_ok:
  "names_ok (tables st) \<Longrightarrow> names_ok (tables (snd (handle_mcp_request loads uuid4 st fn body)))"
proof (rule handle_preserves [where Q = "\<lambda>s. names_ok (tables s)"])
  assume a: "names_ok (tables st)"
  show "names_ok (tables st)" by (rule a)
  show "names_ok (tables (snd (mcp_insert uuid4 st p)))" for p
    using a by (rule mcp_insert_names_ok)
  show "names_ok (tables (snd (mcp_update st p)))" for p
    using mcp_update_shape [of st p] a by (auto simp: names_ok_store)
  show "names_ok (tables (snd (mcp_delete st p)))" for p
    using mcp_delete_shape [of st p] a by (auto simp: names_ok_store)
qed

lemma names_ok_reachable: "names_ok (tables (serve loads uuid4 store_init reqs))"
proof -
  have "names_ok (tables store_init)"
    by (simp add: names_ok_def store_init_def tables_init_def)
  with serve_preserves [where I = "\<lambda>s. names_ok (tables s)", OF handle_names_ok]
  show ?thesis by blast
qed


section \<open>Tables created by insert\<close>



section \<open>Generated ids\<close>

text \<open>
  C8. The random source is modelled by its sequence of draws \<open>uuid4\<close>; the claim is
  proved for a source whose draws are pairwise different and never empty (each is
  the 36-character text of a UUID). Take two successful \<^verbatim>\<open>insert\<close> calls of records
  \<open>rs1\<close> and \<open>rs2\<close>, with any requests \<open>reqs\<close> served between them, and records
  \<open>rs1 ! j1\<close> and \<open>rs2 ! j2\<close> that have no \<^verbatim>\<open>id\<close>. Then the ids returned for them are
  non-empty strings and differ, and the id of \<open>rs1 ! j1\<close> also differs from the id
  generated for any other record of the same call.
\<close>

theorem generated_ids_distinct:
  assumes "inj uuid4" and "\<forall>n. uuid4 n \<noteq> []"
      and "truthy T1" and "hashable T1" and "rs1 \<noteq> []"
      and "py_get p1 ''table'' JNull = Inr T1"
      and "py_get p1 ''records'' (JArr []) = Inr (JArr (map JObj rs1))"
      and "mcp_insert uuid4 st p1 = (Inr (RIds ids1), st1)"
      and "truthy T2" and "hashable T2" and "rs2 \<noteq> []"
      and "py_get p2 ''table'' JNull = Inr T2"
      and "py_get p2 ''records'' (JArr []) = Inr (JArr (map JObj rs2))"
      and "mcp_insert uuid4 (serve loads uuid4 st1 reqs) p2 = (Inr (RIds ids2), st2)"
      and "j1 < length rs1" and "map_of (rs1 ! j1) ''id'' = None"
      and "j2 < length rs2" and "map_of (rs2 ! j2) ''id'' = None"
    shows "(\<exists>s. ids1 ! j1 = JStr s \<and> s \<noteq> []) \<and> (\<exists>s. ids2 ! j2 = JStr s \<and> s \<noteq> []) \<and>
           ids1 ! j1 \<noteq> ids2 ! j2 \<and>
           (\<forall>j < length rs1. j \<noteq> j1 \<and> map_of (rs1 ! j) ''id'' = None \<longrightarrow> ids1 ! j \<noteq> ids1 ! j1)"
proof -
  let ?f = "\<lambda>(n, r). case map_of r ''id'' of None \<Rightarrow> JStr (uuid4 n) | Some v \<Rightarrow> v"
  let ?s = "serve loads uuid4 st1 reqs"
  from mcp_insert_dicts [OF assms(3,4,5,6,7), of uuid4 st] assms(8)
  have i1: "ids1 = map ?f (enumerate (uuid_draws st) rs1)"
    and d1: "uuid_draws st1 = uuid_draws st + length rs1"
    by auto
  from mcp_insert_dicts [OF assms(9,10,11,12,13), of uuid4 ?s] assms(14)
  have i2: "ids2 = map ?f (enumerate (uuid_draws ?s) rs2)"
    by auto
  have e1: "ids1 ! j = JStr (uuid4 (uuid_draws st + j))"
    if "j < length rs1" "map_of (rs1 ! j) ''id'' = None" for j
    using that by (simp add: i1 nth_enumerate_eq)
  have e2: "ids2 ! j2 = JStr (uuid4 (uuid_draws ?s + j2))"
    using assms(17,18) by (simp add: i2 nth_enumerate_eq)
  have "uuid_draws st + j1 < uuid_draws ?s + j2"
    using serve_draws [of st1 loads uuid4 reqs] d1 assms(15) by simp
  then have "uuid4 (uuid_draws st + j1) \<noteq> uuid4 (uuid_draws ?s + j2)"
    using assms(1) by (auto dest: injD)
  moreover have "ids1 ! j \<noteq> ids1 ! j1"
    if "j < length rs1" "j \<noteq> j1" "map_of (rs1 ! j) ''id'' = None" for j
    using that e1 [OF that(1,3)] e1 [OF assms(15,16)] assms(1) by (auto dest: injD)
  ultimately show ?thesis
    using e1 [OF assms(15,16)] e2 assms(2) by auto
qed

theorem generated_ids_distinct_witness:
  "mcp_insert (\<lambda>n. replicate (Suc n) CHR ''u'') \<lparr>tables = [], uuid_draws = 0\<rparr>
     (JObj [(''table'', JStr ''t''), (''records'', JArr [JObj [(''a'', JInt 1)]])]) =
     (Inr (RIds [JStr ''u'']),
      \<lparr>tables = [(JStr ''t'', [[(''a'', JInt 1), (''id'', JStr ''u'')]])], uuid_draws = 1\<rparr>)
   \<and> mcp_insert (\<lambda>n. replicate (Suc n) CHR ''u'')
       (serve (\<lambda>b. Inl JSONDecodeError) (\<lambda>n. replicate (Suc n) CHR ''u'')
          \<lparr>tables = [(JStr ''t'', [[(''a'', JInt 1), (''id'', JStr ''u'')]])], uuid_draws = 1\<rparr> [])
       (JObj [(''table'', JStr ''t''), (''records'', JArr [JObj [(''a'', JInt 1)]])]) =
     (Inr (RIds [JStr ''uu'']),
      \<lparr>tables = [(JStr ''t'', [[(''a'', JInt 1), (''id'', JStr ''u'')],
                                    [(''a'', JInt 1), (''id'', JStr ''uu'')]])], uuid_draws = 2\<rparr>)
   \<and> [JStr ''u''] ! 0 \<noteq> [JStr ''uu''] ! 0"
proof -
  let ?g = "\<lambda>n. replicate (Suc n) CHR ''u''"
  let ?rs = "[[(''a'', JInt 1)]]"
  let ?p = "JObj [(''table'', JStr ''t''), (''records'', JArr (map JObj ?rs))]"
  let ?st1 = "\<lparr>tables = [(JStr ''t'', [[(''a'', JInt 1), (''id'', JStr ''u'')]])], uuid_draws = 1\<rparr>"
  let ?st2 = "\<lparr>tables = [(JStr ''t'', [[(''a'', JInt 1), (''id'', JStr ''u'')],
                                       [(''a'', JInt 1), (''id'', JStr ''uu'')]])], uuid_draws = 2\<rparr>"
  have g: "inj ?g" "\<forall>n. ?g n \<noteq> []"
    by (simp_all add: inj_def)
  have h: "truthy (JStr ''t'')" "hashable (JStr ''t'')" "?rs \<noteq> []"
    "py_get ?p ''table'' JNull = Inr (JStr ''t'')"
    "py_get ?p ''records'' (JArr []) = Inr (JArr (map JObj ?rs))"
    by simp_all
  have a: "mcp_insert ?g \<lparr>tables = [], uuid_draws = 0\<rparr> ?p = (Inr (RIds [JStr ''u'']), ?st1)"
    by (simp add: mcp_insert_def py_contains_def Let_def)
  have b: "mcp_insert ?g (serve (\<lambda>b. Inl JSONDecodeError) ?g ?st1 []) ?p = (Inr (RIds [JStr ''uu'']), ?st2)"
    by (simp add: mcp_insert_def py_contains_def Let_def)
  have j: "0 < length ?rs" "map_of (?rs ! 0) ''id'' = None" by simp_all
  from generated_ids_distinct [OF g h a h b j j] a b show ?thesis
    by simp
qed

section \<open>Every record has an id\<close>

text \<open>
  C9. Every record of the initial tables has the key \<^verbatim>\<open>id\<close>; every request, whatever
  its function name and body and however it ends, keeps this true, so it holds after
  any sequence of requests. The only assignment to the fields of a stored record, the
  loop of \<^verbatim>\<open>update\<close>, removes no key.
\<close>

theorem records_have_id:
  "has_ids (tables store_init) \<and>
   (has_ids (tables st) \<longrightarrow> has_ids (tables (snd (handle_mcp_request loads uuid4 st fn body)))) \<and>
   has_ids (tables (serve loads uuid4 store_init reqs)) \<and>
   fst ` set r \<subseteq> fst ` set (apply_updates U r)"
proof -
  from serve_preserves [where I = "\<lambda>s. has_ids (tables s)", OF handle_has_ids] has_ids_init
  have "has_ids (tables (serve loads uuid4 store_init reqs))" by blast
  then show ?thesis
    using has_ids_init handle_has_ids apply_updates_keys by blast
qed

theorem records_have_id_witness:
  "has_ids (tables store_init) \<and>
   has_ids (tables (snd (handle_mcp_request
      (\<lambda>b. Inr (JObj [(''table'', JStr ''t''), (''records'', JArr [JObj [(''a'', JInt 1)]])]))
      (\<lambda>n. replicate (Suc n) CHR ''u'') store_init ''insert'' ''x'')))"
  using records_have_id [of store_init
      "\<lambda>b. Inr (JObj [(''table'', JStr ''t''), (''records'', JArr [JObj [(''a'', JInt 1)]])])"
      "\<lambda>n. replicate (Suc n) CHR ''u''" "''insert''" "''x''"]
  by blast

section \<open>Dispatch\<close>



section \<open>Required parameters\<close>

lemma not_truthy_iff:
  "\<not> truthy v \<longleftrightarrow> v \<in> {JNull, JBool False, JInt 0, JStr [], JArr [], JObj []}"
  by (cases v) auto

lemma py_get_dict: "py_get p key dflt = Inr v \<Longrightarrow> \<exists>kvs. p = JObj kvs"
  by (cases p) simp_all

text \<open>
  C10. The checks of the required parameters test truth values, in the order
  \<^verbatim>\<open>table\<close>, then \<^verbatim>\<open>records\<close> (\<^verbatim>\<open>insert\<close>) or \<^verbatim>\<open>id\<close> (\<^verbatim>\<open>update\<close>, \<^verbatim>\<open>delete\<close>), then
  \<^verbatim>\<open>updates\<close> (\<^verbatim>\<open>update\<close>): the first parameter whose value is not truthy, present or
  not, gives \<^verbatim>\<open>"<parameter> parameter is required"\<close> and the store is unchanged, so the
  table is never scanned. The values that are not truthy are \<^verbatim>\<open>None\<close>, \<^verbatim>\<open>False\<close>, \<^verbatim>\<open>0\<close>,
  the empty string, the empty list and the empty dictionary.
\<close>

theorem falsy_parameter_is_missing:
  "(py_get p ''table'' JNull = Inr T \<and> \<not> truthy T \<longrightarrow>
      mcp_query st p = Inr (RError [Lit ''table parameter is required'']) \<and>
      mcp_insert uuid4 st p = (Inr (RError [Lit ''table parameter is required'']), st) \<and>
      mcp_update st p = (Inr (RError [Lit ''table parameter is required'']), st) \<and>
      mcp_delete st p = (Inr (RError [Lit ''table parameter is required'']), st))
   \<and> (py_get p ''table'' JNull = Inr T \<and> truthy T \<and>
       py_get p ''records'' (JArr []) = Inr R \<and> \<not> truthy R \<longrightarrow>
      mcp_insert uuid4 st p = (Inr (RError [Lit ''records parameter is required'']), st))
   \<and> (py_get p ''table'' JNull = Inr T \<and> truthy T \<and>
       py_get p ''id'' JNull = Inr i \<and> \<not> truthy i \<longrightarrow>
      mcp_update st p = (Inr (RError [Lit ''id parameter is required'']), st) \<and>
      mcp_delete st p = (Inr (RError [Lit ''id parameter is required'']), st))
   \<and> (py_get p ''table'' JNull = Inr T \<and> truthy T \<and>
       py_get p ''id'' JNull = Inr i \<and> truthy i \<and>
       py_get p ''updates'' (JObj []) = Inr U \<and> \<not> truthy U \<longrightarrow>
      mcp_update st p = (Inr (RError [Lit ''updates parameter is required'']), st))
   \<and> (\<not> truthy v \<longleftrightarrow> v \<in> {JNull, JBool False, JInt 0, JStr [], JArr [], JObj []})"
proof -
  have 1: "mcp_query st p = Inr (RError [Lit ''table parameter is required'']) \<and>
      mcp_insert uuid4 st p = (Inr (RError [Lit ''table parameter is required'']), st) \<and>
      mcp_update st p = (Inr (RError [Lit ''table parameter is required'']), st) \<and>
      mcp_delete st p = (Inr (RError [Lit ''table parameter is required'']), st)"
    if a: "py_get p ''table'' JNull = Inr T" "\<not> truthy T"
  proof -
    from py_get_dict [OF a(1)] obtain kvs where p: "p = JObj kvs" by blast
    with a show ?thesis
      by (simp add: mcp_query_def mcp_insert_def mcp_update_def mcp_delete_def)
  qed
  have 2: "mcp_insert uuid4 st p = (Inr (RError [Lit ''records parameter is required'']), st)"
    if "py_get p ''table'' JNull = Inr T" "truthy T" "py_get p ''records'' (JArr []) = Inr R" "\<not> truthy R"
    using that by (simp add: mcp_insert_def)
  have 3: "mcp_update st p = (Inr (RError [Lit ''id parameter is required'']), st) \<and>
      mcp_delete st p = (Inr (RError [Lit ''id parameter is required'']), st)"
    if a: "py_get p ''table'' JNull = Inr T" "truthy T" "py_get p ''id'' JNull = Inr i" "\<not> truthy i"
  proof -
    from py_get_dict [OF a(1)] obtain kvs where p: "p = JObj kvs" by blast
    with a show ?thesis
      by (simp add: mcp_update_def mcp_delete_def)
  qed
  have 4: "mcp_update st p = (Inr (RError [Lit ''updates parameter is required'']), st)"
    if "py_get p ''table'' JNull = Inr T" "truthy T" "py_get p ''id'' JNull = Inr i" "truthy i"
       "py_get p ''updates'' (JObj []) = Inr U" "\<not> truthy U"
    using that by (simp add: mcp_update_def)
  show ?thesis
    apply (intro conjI)
        apply (intro impI, elim conjE, rule 1; assumption)
       apply (intro impI, elim conjE, rule 2; assumption)
      apply (intro impI, elim conjE, rule 3; assumption)
     apply (intro impI, elim conjE, rule 4; assumption)
    apply (rule not_truthy_iff)
    done
qed

theorem falsy_parameter_is_missing_witness:
  "mcp_update \<lparr>tables = [(JStr ''t'', [[(''id'', JStr [])]])], uuid_draws = 0\<rparr>
     (JObj [(''table'', JStr ''t''), (''id'', JStr []), (''updates'', JObj [(''a'', JInt 1)])]) =
     (Inr (RError [Lit ''id parameter is required'']),
      \<lparr>tables = [(JStr ''t'', [[(''id'', JStr [])]])], uuid_draws = 0\<rparr>)
   \<and> mcp_delete \<lparr>tables = [(JStr ''t'', [[(''id'', JStr [])]])], uuid_draws = 0\<rparr>
     (JObj [(''table'', JStr ''t''), (''id'', JStr []), (''updates'', JObj [(''a'', JInt 1)])]) =
     (Inr (RError [Lit ''id parameter is required'']),
      \<lparr>tables = [(JStr ''t'', [[(''id'', JStr [])]])], uuid_draws = 0\<rparr>)
   \<and> mcp_insert (\<lambda>n. replicate (Suc n) CHR ''u'')
       \<lparr>tables = [(JStr ''t'', [[(''id'', JStr [])]])], uuid_draws = 0\<rparr>
       (JObj [(''table'', JStr ''t''), (''records'', JArr [])]) =
     (Inr (RError [Lit ''records parameter is required'']),
      \<lparr>tables = [(JStr ''t'', [[(''id'', JStr [])]])], uuid_draws = 0\<rparr>)
   \<and> mcp_query \<lparr>tables = [(JStr ''t'', [[(''id'', JStr [])]])], uuid_draws = 0\<rparr>
       (JObj [(''table'', JStr [])]) =
     Inr (RError [Lit ''table parameter is required''])"
  using falsy_parameter_is_missing
          [of "JObj [(''table'', JStr ''t''), (''id'', JStr []), (''updates'', JObj [(''a'', JInt 1)])]"
              "JStr ''t''" "\<lparr>tables = [(JStr ''t'', [[(''id'', JStr [])]])], uuid_draws = 0\<rparr>"
              _ _ "JStr []"]
        falsy_parameter_is_missing
          [of "JObj [(''table'', JStr ''t''), (''records'', JArr [])]"
              "JStr ''t''" "\<lparr>tables = [(JStr ''t'', [[(''id'', JStr [])]])], uuid_draws = 0\<rparr>"
              "\<lambda>n. replicate (Suc n) CHR ''u''" "JArr []"]
        falsy_parameter_is_missing
          [of "JObj [(''table'', JStr [])]"
              "JStr []" "\<lparr>tables = [(JStr ''t'', [[(''id'', JStr [])]])], uuid_draws = 0\<rparr>"]
  by simp

end
